theory Spec2Isabelle
  imports Complex_Main "HOL-Library.Char_ord" "HOL-Library.List_Lexorder"
begin

section \<open>combine-and-bzip-csvs: the fetch, combine, compress and upload pipeline\<close>

text \<open>
  A shallow embedding of \<^verbatim>\<open>scripts/combine-and-bzip-csvs/main.py\<close>. The script lists the
  objects under a prefix, keeps those ending in \<^verbatim>\<open>.csv\<close>, sorts the paths, downloads every
  object through a thread pool, writes the bodies into one bzip2 stream and uploads the
  stream as one object. It has two entry points, \<^verbatim>\<open>combine_and_upload_high_ram\<close> and
  \<^verbatim>\<open>combine_and_upload_streaming_chunked\<close>.

  Everything outside the script is a parameter of the model, gathered in the record
  \<open>world\<close>: the answers of the object store, the compressor, the order in which
  \<^verbatim>\<open>as_completed\<close> hands the finished downloads back, the line read from the terminal, the
  rounding of float arithmetic. Console output has no influence on control flow and is
  left out, except the missing-index warning, which is recorded.
\<close>

subsection \<open>Data\<close>

type_synonym path = string

text \<open>A byte string; a \<open>char\<close> is one byte.\<close>

type_synonym bytes = string

text \<open>A Python exception, with its message.\<close>

datatype exn = Exn string

text \<open>The module-level configuration, read from the process environment.\<close>

record config =
  SOURCE_BUCKET :: string
  DEST_BUCKET :: string
  DEST_FILENAME :: string
  GCS_PREFIX :: string
  MAX_WORKERS :: int
  MEMORY_LIMIT_GB :: int


record upload_args =
  rewind :: bool
  content_type :: string
  timeout :: "nat option"


definition high_ram_upload_args :: upload_args where
  "high_ram_upload_args =
     \<lparr>rewind = True, content_type = ''application/x-bzip2'', timeout = Some 7200\<rparr>"


definition streaming_upload_args :: upload_args where
  "streaming_upload_args =
     \<lparr>rewind = True, content_type = ''application/x-bzip2'', timeout = None\<rparr>"

text \<open>The destination store: bucket and object name to the stored object.\<close>

record blob =
  blob_content_type :: string
  blob_body :: bytes

type_synonym store = "string \<times> string \<rightharpoonup> blob"

text \<open>
  What the script's surroundings answer during one run.
  \<^item> \<open>find\<close>, \<open>read_all\<close>: \<^verbatim>\<open>fs.find(prefix)\<close> and \<^verbatim>\<open>fs.open(path, 'rb').read()\<close>;
  \<^item> \<open>size_at_estimate\<close>, \<open>size_at_download\<close>: \<^verbatim>\<open>fs.size(path)\<close> as answered while the
    total size is estimated and while an object is downloaded (a remote call may fail at
    one time and succeed at another);
  \<^item> \<open>bz2_compress level data\<close>: the bytes a \<^verbatim>\<open>bz2.BZ2File\<close> opened with that
    \<^verbatim>\<open>compresslevel\<close> leaves in its buffer once \<open>data\<close> has been written and it is closed;
  \<^item> \<open>upload_fault\<close>: the exception raised while the storage client is built or by
    \<^verbatim>\<open>upload_from_file\<close>, if any;
  \<^item> \<open>completion_order\<close>: the positions of the futures in the order in which
    \<^verbatim>\<open>as_completed\<close> yields them;
  \<^item> \<open>stdin_line\<close>: what \<^verbatim>\<open>input(...)\<close> returns, or the exception it raises;
  \<^item> \<open>rnd\<close>: the rounding of a float operation's exact result.
\<close>

record world =
  find :: "path \<Rightarrow> exn + path list"
  size_at_estimate :: "path \<Rightarrow> exn + nat"
  size_at_download :: "path \<Rightarrow> exn + nat"
  read_all :: "path \<Rightarrow> exn + bytes"
  bz2_compress :: "nat \<Rightarrow> bytes \<Rightarrow> bytes"
  upload_fault :: "exn option"
  completion_order :: "nat list"
  stdin_line :: "exn + string"
  rnd :: "real \<Rightarrow> real"

text \<open>
  How a run ends when it does not raise: at \<^verbatim>\<open>return\<close> after "No CSV files found!", at
  \<^verbatim>\<open>return\<close> after the declined prompt, or at the end of the function, after the upload.
\<close>

datatype ret = NoCsvFiles | Declined | Uploaded

type_synonym outcome = "(exn + ret) \<times> store"

subsection \<open>Strings\<close>

text \<open>\<^verbatim>\<open>f.endswith(suffix)\<close>.\<close>

definition endswith :: "string \<Rightarrow> string \<Rightarrow> bool" where
  "endswith s suf \<longleftrightarrow>
     length suf \<le> length s \<and> drop (length s - length suf) s = suf"

text \<open>
  \<^verbatim>\<open>str.isspace\<close>, \<^verbatim>\<open>str.lower\<close> and \<^verbatim>\<open>str.strip()\<close> on the code points below 256, which
  is what a \<open>char\<close> holds.
\<close>

definition py_isspace :: "char \<Rightarrow> bool" where
  "py_isspace c =
     (let n = (of_char c :: nat)
      in (9 \<le> n \<and> n \<le> 13) \<or> (28 \<le> n \<and> n \<le> 32) \<or> n = 133 \<or> n = 160)"

definition py_lower_char :: "char \<Rightarrow> char" where
  "py_lower_char c =
     (let n = (of_char c :: nat)
      in if (65 \<le> n \<and> n \<le> 90) \<or> (192 \<le> n \<and> n \<le> 222 \<and> n \<noteq> 215)
         then char_of (n + 32) else c)"

definition strip :: "string \<Rightarrow> string" where
  "strip s = rev (dropWhile py_isspace (rev (dropWhile py_isspace s)))"

definition lower :: "string \<Rightarrow> string" where
  "lower s = map py_lower_char s"

subsection \<open>Listing\<close>

text \<open>
  \<^verbatim>\<open>csv_files = fs.find(prefix_path)\<close>, the filter on \<^verbatim>\<open>.csv\<close> and \<^verbatim>\<open>csv_files.sort()\<close>;
  the same three lines open both entry points.
\<close>

definition list_csv_files :: "world \<Rightarrow> config \<Rightarrow> exn + path list" where
  "list_csv_files w cfg =
     (case find w (SOURCE_BUCKET cfg @ ''/'' @ GCS_PREFIX cfg) of
        Inl e \<Rightarrow> Inl e
      | Inr found \<Rightarrow> Inr (sort (filter (\<lambda>f. endswith f ''.csv'') found)))"

subsection \<open>Size estimate and confirmation prompt (high-RAM entry point)\<close>

text \<open>\<^verbatim>\<open>sum(fs.size(f) for f in sample_files)\<close>: the first failing lookup raises.\<close>

fun sum_sizes :: "(path \<Rightarrow> exn + nat) \<Rightarrow> path list \<Rightarrow> exn + nat" where
  "sum_sizes sz [] = Inr 0"
| "sum_sizes sz (f # fs) =
     (case sz f of
        Inl e \<Rightarrow> Inl e
      | Inr s \<Rightarrow> (case sum_sizes sz fs of Inl e \<Rightarrow> Inl e | Inr t \<Rightarrow> Inr (s + t)))"

text \<open>\<^verbatim>\<open>sample_files = csv_files[:min(10, len(csv_files))]\<close>.\<close>

definition sample_files :: "path list \<Rightarrow> path list" where
  "sample_files csv_files = take (min 10 (length csv_files)) csv_files"

text \<open>
  The three assignments \<^verbatim>\<open>sample_size\<close>, \<^verbatim>\<open>avg_size\<close>, \<^verbatim>\<open>estimated_total_gb\<close>. The
  divisions and the product are float operations, each rounded by \<open>rnd\<close>. An empty
  sample makes the division raise \<^verbatim>\<open>ZeroDivisionError\<close>.
\<close>

definition estimate_total_gb :: "world \<Rightarrow> path list \<Rightarrow> exn + real" where
  "estimate_total_gb w csv_files =
     (case sum_sizes (size_at_estimate w) (sample_files csv_files) of
        Inl e \<Rightarrow> Inl e
      | Inr sample_size \<Rightarrow>
          if length (sample_files csv_files) = 0 then Inl (Exn ''division by zero'')
          else
            (let avg_size = rnd w (real sample_size / real (length (sample_files csv_files)))
             in Inr (rnd w (rnd w (avg_size * real (length csv_files)) / 1024 ^ 3))))"

text \<open>
  The body of \<^verbatim>\<open>if estimated_total_gb > MEMORY_LIMIT_GB\<close>: the warning, the prompt, and
  \<^verbatim>\<open>return\<close> on a response other than \<^verbatim>\<open>y\<close>. An exception of \<^verbatim>\<open>input\<close> reaches the
  \<^verbatim>\<open>except\<close> clause of the enclosing \<^verbatim>\<open>try\<close>, after which the run goes on.
\<close>

datatype gate = Proceed | Return

definition confirm :: "world \<Rightarrow> gate" where
  "confirm w =
     (case stdin_line w of
        Inl e \<Rightarrow> Proceed
      | Inr response \<Rightarrow> if lower (strip response) \<noteq> ''y'' then Return else Proceed)"

text \<open>
  The \<^verbatim>\<open>try\<close> block around the estimate: an exception of a size lookup is caught and the
  run goes on.
\<close>

definition size_gate :: "world \<Rightarrow> config \<Rightarrow> path list \<Rightarrow> gate" where
  "size_gate w cfg csv_files =
     (case estimate_total_gb w csv_files of
        Inl e \<Rightarrow> Proceed
      | Inr estimated_total_gb \<Rightarrow>
          if estimated_total_gb > real_of_int (MEMORY_LIMIT_GB cfg) then confirm w
          else Proceed)"

subsection \<open>Upload\<close>

text \<open>
  \<^verbatim>\<open>bucket.blob(DEST_FILENAME).upload_from_file(output_buffer, rewind=True, ...)\<close>: the
  whole buffer becomes the body of the destination object, or the call raises and the
  store is as it was.
\<close>

definition upload_from_file ::
  "world \<Rightarrow> config \<Rightarrow> bytes \<Rightarrow> upload_args \<Rightarrow> store \<Rightarrow> exn + store" where
  "upload_from_file w cfg output_buffer args dest =
     (case upload_fault w of
        Some e \<Rightarrow> Inl e
      | None \<Rightarrow>
          Inr (dest((DEST_BUCKET cfg, DEST_FILENAME cfg) \<mapsto>
                 \<lparr>blob_content_type = content_type args, blob_body = output_buffer\<rparr>)))"

subsection \<open>The high-RAM entry point\<close>

text \<open>\<^verbatim>\<open>download_entire_file\<close>: the size lookup, then the read; either may raise.\<close>

definition download_entire_file ::
  "world \<Rightarrow> path \<Rightarrow> nat \<Rightarrow> nat \<Rightarrow> exn + nat \<times> bytes" where
  "download_entire_file w file_path file_index total_files =
     (case size_at_download w file_path of
        Inl e \<Rightarrow> Inl e
      | Inr file_size \<Rightarrow>
          (case read_all w file_path of
             Inl e \<Rightarrow> Inl e
           | Inr file_data \<Rightarrow> Inr (file_index, file_data)))"

text \<open>The submitted jobs, one per \<^verbatim>\<open>enumerate(csv_files)\<close> entry, by position.\<close>

definition submit_downloads :: "world \<Rightarrow> path list \<Rightarrow> (exn + nat \<times> bytes) list" where
  "submit_downloads w csv_files =
     map (\<lambda>(i, file_path). download_entire_file w file_path i (length csv_files))
       (enumerate 0 csv_files)"

text \<open>
  \<^verbatim>\<open>for future in as_completed(futures)\<close>: each result is stored under the index it carries;
  the first exception is raised again.
\<close>

fun collect_results ::
  "(exn + nat \<times> bytes) list \<Rightarrow> nat list \<Rightarrow> (nat \<rightharpoonup> bytes) \<Rightarrow> exn + (nat \<rightharpoonup> bytes)" where
  "collect_results futures [] file_data_dict = Inr file_data_dict"
| "collect_results futures (j # js) file_data_dict =
     (case futures ! j of
        Inl e \<Rightarrow> Inl e
      | Inr (file_index, file_data) \<Rightarrow>
          collect_results futures js (file_data_dict(file_index \<mapsto> file_data)))"

text \<open>
  \<^verbatim>\<open>for i in range(len(csv_files))\<close> inside the \<^verbatim>\<open>BZ2File\<close> block: a present entry is
  written and deleted, a missing one prints a warning. The result is the bytes written
  and the indices warned about.
\<close>

fun write_in_order ::
  "nat list \<Rightarrow> (nat \<rightharpoonup> bytes) \<Rightarrow> bytes \<Rightarrow> nat list \<Rightarrow> bytes \<times> nat list" where
  "write_in_order [] file_data_dict written warned = (written, warned)"
| "write_in_order (i # is) file_data_dict written warned =
     (case file_data_dict i of
        Some file_data \<Rightarrow>
          write_in_order is (file_data_dict(i := None)) (written @ file_data) warned
      | None \<Rightarrow> write_in_order is file_data_dict written (warned @ [i]))"

text \<open>Phases 2 and 3: compress what is in memory, upload the buffer.\<close>

definition compress_and_upload_high_ram ::
  "world \<Rightarrow> config \<Rightarrow> nat \<Rightarrow> (nat \<rightharpoonup> bytes) \<Rightarrow> store \<Rightarrow> outcome" where
  "compress_and_upload_high_ram w cfg n file_data_dict dest =
     (let output_buffer = bz2_compress w 9 (fst (write_in_order [0..<n] file_data_dict [] []))
      in case upload_from_file w cfg output_buffer high_ram_upload_args dest of
           Inl e \<Rightarrow> (Inl e, dest)
         | Inr dest' \<Rightarrow> (Inr Uploaded, dest'))"

text \<open>
  Phase 1 and what follows. \<^verbatim>\<open>ThreadPoolExecutor(max_workers=MAX_WORKERS)\<close> raises
  \<^verbatim>\<open>ValueError\<close> for a pool size below one.
\<close>

definition download_compress_upload_high_ram ::
  "world \<Rightarrow> config \<Rightarrow> path list \<Rightarrow> store \<Rightarrow> outcome" where
  "download_compress_upload_high_ram w cfg csv_files dest =
     (if MAX_WORKERS cfg \<le> 0 then (Inl (Exn ''max_workers must be greater than 0''), dest)
      else
        case collect_results (submit_downloads w csv_files) (completion_order w) Map.empty of
          Inl e \<Rightarrow> (Inl e, dest)
        | Inr file_data_dict \<Rightarrow>
            compress_and_upload_high_ram w cfg (length csv_files) file_data_dict dest)"

definition combine_and_upload_high_ram :: "world \<Rightarrow> config \<Rightarrow> store \<Rightarrow> outcome" where
  "combine_and_upload_high_ram w cfg dest =
     (case list_csv_files w cfg of
        Inl e \<Rightarrow> (Inl e, dest)
      | Inr csv_files \<Rightarrow>
          if csv_files = [] then (Inr NoCsvFiles, dest)
          else
            (case size_gate w cfg csv_files of
               Return \<Rightarrow> (Inr Declined, dest)
             | Proceed \<Rightarrow> download_compress_upload_high_ram w cfg csv_files dest))"

subsection \<open>The streaming entry point\<close>

text \<open>\<^verbatim>\<open>process_file_fast\<close>: the read alone.\<close>

definition process_file_fast :: "world \<Rightarrow> path \<Rightarrow> exn + bytes" where
  "process_file_fast w file_path = read_all w file_path"

text \<open>
  \<^verbatim>\<open>for future in as_completed(futures): all_data.append(future.result())\<close>: the bodies
  are appended as the futures complete.
\<close>

fun gather_results :: "(exn + bytes) list \<Rightarrow> nat list \<Rightarrow> bytes list \<Rightarrow> exn + bytes list" where
  "gather_results futures [] all_data = Inr all_data"
| "gather_results futures (j # js) all_data =
     (case futures ! j of
        Inl e \<Rightarrow> Inl e
      | Inr file_data \<Rightarrow> gather_results futures js (all_data @ [file_data]))"

definition combine_and_upload_streaming_chunked :: "world \<Rightarrow> config \<Rightarrow> store \<Rightarrow> outcome" where
  "combine_and_upload_streaming_chunked w cfg dest =
     (case list_csv_files w cfg of
        Inl e \<Rightarrow> (Inl e, dest)
      | Inr csv_files \<Rightarrow>
          if MAX_WORKERS cfg \<le> 0 then (Inl (Exn ''max_workers must be greater than 0''), dest)
          else
            (case gather_results (map (process_file_fast w) csv_files) (completion_order w) [] of
               Inl e \<Rightarrow> (Inl e, dest)
             | Inr all_data \<Rightarrow>
                 (let output_buffer = bz2_compress w 9 (concat all_data)
                  in case upload_from_file w cfg output_buffer streaming_upload_args dest of
                       Inl e \<Rightarrow> (Inl e, dest)
                     | Inr dest' \<Rightarrow> (Inr Uploaded, dest'))))"

subsection \<open>Fixtures\<close>

text \<open>
  The scenario of the specification: three objects \<^verbatim>\<open>a.csv\<close>, \<^verbatim>\<open>b.csv\<close>, \<^verbatim>\<open>c.csv\<close> under
  \<^verbatim>\<open>src/\<close>, beside one object that is not a CSV file; every remote call succeeds. The
  stand-in compressor stores its input behind a four-byte header.
\<close>

definition demo_config :: config where
  "demo_config =
     \<lparr>SOURCE_BUCKET = ''src'', DEST_BUCKET = ''dst'', DEST_FILENAME = ''combined_output.csv.bz2'',
      GCS_PREFIX = '''', MAX_WORKERS = 32, MEMORY_LIMIT_GB = 80\<rparr>"

definition demo_body :: "path \<Rightarrow> exn + bytes" where
  "demo_body p =
     (if p = ''src/a.csv'' then Inr ''1,2\<newline>''
      else if p = ''src/b.csv'' then Inr ''3,4\<newline>''
      else if p = ''src/c.csv'' then Inr ''5,6\<newline>''
      else Inl (Exn ''not found''))"

definition stored :: "nat \<Rightarrow> bytes \<Rightarrow> bytes" where
  "stored level data = ''BZh'' @ [char_of (48 + level)] @ data"

definition demo_world :: world where
  "demo_world =
     \<lparr>find = (\<lambda>p. Inr [''src/c.csv'', ''src/notes.txt'', ''src/a.csv'', ''src/b.csv'']),
      size_at_estimate = (\<lambda>p. Inr 4),
      size_at_download = (\<lambda>p. Inr 4),
      read_all = demo_body,
      bz2_compress = stored,
      upload_fault = None,
      completion_order = [2, 0, 1],
      stdin_line = Inr ''n'',
      rnd = (\<lambda>x. x)\<rparr>"

text \<open>The same scenario with the read of \<^verbatim>\<open>b.csv\<close> failing.\<close>

definition faulty_world :: world where
  "faulty_world =
     demo_world\<lparr>read_all :=
       (\<lambda>p. if p = ''src/b.csv'' then Inl (Exn ''connection reset'') else demo_body p)\<rparr>"

text \<open>A prefix that holds no CSV file.\<close>

definition empty_world :: world where
  "empty_world = demo_world\<lparr>find := (\<lambda>p. Inr [''src/notes.txt'']), completion_order := []\<rparr>"

text \<open>The same scenario with every size lookup of the estimate failing.\<close>

definition unsized_world :: world where
  "unsized_world = demo_world\<lparr>size_at_estimate := (\<lambda>p. Inl (Exn ''forbidden''))\<rparr>"

text \<open>
  The same scenario with the estimate answering 40 GiB for every object, so that the
  projection for three objects is 120 GB against a limit of 80; the answer typed at the
  prompt is the parameter.
\<close>

definition big_world :: "string \<Rightarrow> world" where
  "big_world response =
     demo_world\<lparr>size_at_estimate := (\<lambda>p. Inr (40 * 1024 ^ 3)), stdin_line := Inr response\<rparr>"

text \<open>
  Twelve objects of 1 GiB each, where the size lookup succeeds for the first ten and fails
  for the last two.
\<close>

definition twelve_files :: "path list" where
  "twelve_files =
     [''f00'', ''f01'', ''f02'', ''f03'', ''f04'', ''f05'', ''f06'', ''f07'', ''f08'', ''f09'',
      ''f10'', ''f11'']"

definition sampled_world :: world where
  "sampled_world =
     demo_world\<lparr>size_at_estimate :=
       (\<lambda>p. if p = ''f10'' \<or> p = ''f11'' then Inl (Exn ''forbidden'') else Inr (1024 ^ 3))\<rparr>"

section \<open>Properties\<close>

subsection \<open>The loops\<close>

text \<open>
  What the three loops compute: when every future succeeds, the collecting loop of the
  high-RAM entry point fills the dictionary by index whatever the completion order, the
  gathering loop of the streaming entry point lists the bodies in completion order;
  either stops at the first failed future; the writing loop emits the present entries by
  increasing index and warns about the others.
\<close>

lemma demo_listing:
  "list_csv_files demo_world demo_config = Inr [''src/a.csv'', ''src/b.csv'', ''src/c.csv'']"
  by (simp add: list_csv_files_def demo_world_def demo_config_def endswith_def)

lemma nth_submit_downloads:
  "j < length csv_files \<Longrightarrow>
   submit_downloads w csv_files ! j = download_entire_file w (csv_files ! j) j (length csv_files)"
  by (simp add: submit_downloads_def nth_enumerate_eq)

lemma length_submit_downloads: "length (submit_downloads w csv_files) = length csv_files"
  by (simp add: submit_downloads_def)

lemma collect_results_all_ok:
  "(\<And>j. j \<in> set js \<Longrightarrow> futures ! j = Inr (j, data j)) \<Longrightarrow>
   collect_results futures js d = Inr (\<lambda>i. if i \<in> set js then Some (data i) else d i)"
proof (induction js arbitrary: d)
  case Nil
  then show ?case by simp
next
  case (Cons j js)
  have "collect_results futures js (d(j \<mapsto> data j))
        = Inr (\<lambda>i. if i \<in> set js then Some (data i) else (d(j \<mapsto> data j)) i)"
    using Cons.prems by (intro Cons.IH) simp
  moreover have "(\<lambda>i. if i \<in> set js then Some (data i) else (d(j \<mapsto> data j)) i)
        = (\<lambda>i. if i \<in> set (j # js) then Some (data i) else d i)"
    by (rule ext) simp
  ultimately show ?case using Cons.prems by simp
qed

lemma collect_results_failure:
  "j \<in> set js \<Longrightarrow> futures ! j = Inl e0 \<Longrightarrow>
   \<exists>k e. k \<in> set js \<and> futures ! k = Inl e \<and> collect_results futures js d = Inl e"
proof (induction js arbitrary: d)
  case Nil
  then show ?case by simp
next
  case (Cons a js)
  show ?case
  proof (cases "futures ! a")
    case (Inl e)
    then show ?thesis by auto
  next
    case (Inr r)
    with Cons.prems have "j \<in> set js" by auto
    from Cons.IH [OF this Cons.prems(2)] obtain k e where
      "k \<in> set js" "futures ! k = Inl e"
      "collect_results futures js (d(fst r \<mapsto> snd r)) = Inl e"
      by blast
    with Inr show ?thesis
      by (cases r) (simp, blast)
  qed
qed

lemma write_in_order_eq:
  "distinct is \<Longrightarrow>
   write_in_order is d written warned =
     (written @ concat (map (\<lambda>i. case d i of None \<Rightarrow> [] | Some b \<Rightarrow> b) is),
      warned @ filter (\<lambda>i. d i = None) is)"
proof (induction "is" arbitrary: d written warned)
  case Nil
  then show ?case by simp
next
  case (Cons i "is")
  then have fresh: "i \<notin> set is" and dist: "distinct is" by simp_all
  show ?case
  proof (cases "d i")
    case None
    then show ?thesis using Cons.IH [OF dist] by simp
  next
    case (Some b)
    have same: "map (\<lambda>k. case (d(i := None)) k of None \<Rightarrow> [] | Some b \<Rightarrow> b) is
              = map (\<lambda>k. case d k of None \<Rightarrow> [] | Some b \<Rightarrow> b) is"
      using fresh by (intro map_cong) auto
    have same': "filter (\<lambda>k. (d(i := None)) k = None) is = filter (\<lambda>k. d k = None) is"
      using fresh by (intro filter_cong) auto
    have "write_in_order (i # is) d written warned
          = write_in_order is (d(i := None)) (written @ b) warned"
      using Some by simp
    also have "\<dots> = ((written @ b) @ concat (map (\<lambda>k. case d k of None \<Rightarrow> [] | Some b \<Rightarrow> b) is),
                      warned @ filter (\<lambda>k. d k = None) is)"
      unfolding Cons.IH [OF dist] same same' ..
    finally show ?thesis using Some by simp
  qed
qed

lemma gather_results_all_ok:
  "(\<And>j. j \<in> set js \<Longrightarrow> futures ! j = Inr (data j)) \<Longrightarrow>
   gather_results futures js all_data = Inr (all_data @ map data js)"
  by (induction js arbitrary: all_data) simp_all

lemma gather_results_failure:
  "j \<in> set js \<Longrightarrow> futures ! j = Inl e0 \<Longrightarrow>
   \<exists>k e. k \<in> set js \<and> futures ! k = Inl e \<and> gather_results futures js all_data = Inl e"
proof (induction js arbitrary: all_data)
  case Nil
  then show ?case by simp
next
  case (Cons a js)
  show ?case
  proof (cases "futures ! a")
    case (Inl e)
    then show ?thesis by auto
  next
    case (Inr r)
    with Cons.prems have "j \<in> set js" by auto
    from Cons.IH [OF this Cons.prems(2)] obtain k e where
      "k \<in> set js" "futures ! k = Inl e"
      "gather_results futures js (all_data @ [r]) = Inl e"
      by blast
    with Inr show ?thesis
      by simp blast
  qed
qed


lemma stored_9: "stored 9 data = ''BZh9'' @ data"
  by (simp add: stored_def char_of_eq_iff take_bit_eq_mod)

lemma upload_ok:
  "upload_fault w = None \<Longrightarrow>
   upload_from_file w cfg buf args dest =
     Inr (dest((DEST_BUCKET cfg, DEST_FILENAME cfg) \<mapsto>
            \<lparr>blob_content_type = content_type args, blob_body = buf\<rparr>))"
  by (simp add: upload_from_file_def)

lemma collect_results_dom:
  "collect_results futures js d = Inr d' \<Longrightarrow>
   (\<And>j i b. j \<in> set js \<Longrightarrow> futures ! j = Inr (i, b) \<Longrightarrow> i = j) \<Longrightarrow>
   dom d' = dom d \<union> set js"
proof (induction js arbitrary: d)
  case Nil
  then show ?case by simp
next
  case (Cons j js)
  show ?case
  proof (cases "futures ! j")
    case (Inl e)
    with Cons.prems(1) show ?thesis by simp
  next
    case (Inr r)
    obtain i b where r: "r = (i, b)" by (cases r)
    with Inr Cons.prems(2) [of j i b] have ij: "i = j" by simp
    from Cons.prems(1) Inr r ij
    have step: "collect_results futures js (d(j \<mapsto> b)) = Inr d'" by simp
    have "dom d' = dom (d(j \<mapsto> b)) \<union> set js"
    proof (rule Cons.IH [OF step])
      fix j' i' b'
      assume "j' \<in> set js" and "futures ! j' = Inr (i', b')"
      then show "i' = j'" using Cons.prems(2) [of j' i' b'] by simp
    qed
    also have "dom (d(j \<mapsto> b)) = insert j (dom d)"
      by (simp only: dom_fun_upd option.distinct if_False)
    finally show ?thesis by simp
  qed
qed

subsection \<open>What a run without failure uploads\<close>

text \<open>
  When every download succeeds and the upload does not raise, the high-RAM entry point
  uploads the compression of the bodies in the order of the sorted listing, for every
  completion order that yields each future; the streaming entry point uploads the
  compression of the bodies in completion order.
\<close>

lemma high_ram_phases_sorted_concat:
  assumes workers: "0 < MAX_WORKERS cfg"
      and sizes: "\<And>p. p \<in> set csv_files \<Longrightarrow> \<exists>s. size_at_download w p = Inr s"
      and reads: "\<And>p. p \<in> set csv_files \<Longrightarrow> read_all w p = Inr (body p)"
      and order: "set (completion_order w) = {..<length csv_files}"
      and upload: "upload_fault w = None"
  shows "download_compress_upload_high_ram w cfg csv_files dest =
           (Inr Uploaded,
            dest((DEST_BUCKET cfg, DEST_FILENAME cfg) \<mapsto>
              \<lparr>blob_content_type = ''application/x-bzip2'',
               blob_body = bz2_compress w 9 (concat (map body csv_files))\<rparr>))"
proof -
  let ?n = "length csv_files"
  let ?d = "\<lambda>i. if i \<in> set (completion_order w) then Some (body (csv_files ! i)) else None"
  have fut: "submit_downloads w csv_files ! j = Inr (j, body (csv_files ! j))"
    if "j \<in> set (completion_order w)" for j
  proof -
    from that order have j: "j < ?n" by simp
    then have "csv_files ! j \<in> set csv_files" by simp
    with sizes reads obtain s where "size_at_download w (csv_files ! j) = Inr s"
      and "read_all w (csv_files ! j) = Inr (body (csv_files ! j))" by blast
    with j show ?thesis by (simp add: nth_submit_downloads download_entire_file_def)
  qed
  have collected:
    "collect_results (submit_downloads w csv_files) (completion_order w) Map.empty = Inr ?d"
    using collect_results_all_ok [of "completion_order w" "submit_downloads w csv_files"
        "\<lambda>i. body (csv_files ! i)" Map.empty] fut by simp
  have "map (\<lambda>i. case ?d i of None \<Rightarrow> [] | Some b \<Rightarrow> b) [0..<?n]
        = map (\<lambda>i. body (csv_files ! i)) [0..<?n]"
    using order by (intro map_cong) auto
  also have "\<dots> = map body (map ((!) csv_files) [0..<?n])"
    by (simp only: map_map comp_def)
  also have "\<dots> = map body csv_files"
    by (simp only: map_nth)
  finally have written:
    "map (\<lambda>i. case ?d i of None \<Rightarrow> [] | Some b \<Rightarrow> b) [0..<?n] = map body csv_files" .
  have "compress_and_upload_high_ram w cfg ?n ?d dest =
          (Inr Uploaded,
            dest((DEST_BUCKET cfg, DEST_FILENAME cfg) \<mapsto>
              \<lparr>blob_content_type = ''application/x-bzip2'',
               blob_body = bz2_compress w 9 (concat (map body csv_files))\<rparr>))"
    unfolding compress_and_upload_high_ram_def write_in_order_eq [OF distinct_upt] written
    by (simp add: upload_ok [OF upload] high_ram_upload_args_def)
  with workers collected show ?thesis
    by (simp add: download_compress_upload_high_ram_def)
qed

lemma streaming_completion_order_concat:
  assumes listing: "list_csv_files w cfg = Inr csv_files"
      and workers: "0 < MAX_WORKERS cfg"
      and reads: "\<And>p. p \<in> set csv_files \<Longrightarrow> read_all w p = Inr (body p)"
      and order: "set (completion_order w) \<subseteq> {..<length csv_files}"
      and upload: "upload_fault w = None"
  shows "combine_and_upload_streaming_chunked w cfg dest =
           (Inr Uploaded,
            dest((DEST_BUCKET cfg, DEST_FILENAME cfg) \<mapsto>
              \<lparr>blob_content_type = ''application/x-bzip2'',
               blob_body = bz2_compress w 9
                 (concat (map (\<lambda>j. body (csv_files ! j)) (completion_order w)))\<rparr>))"
proof -
  have fut: "map (process_file_fast w) csv_files ! j = Inr (body (csv_files ! j))"
    if "j \<in> set (completion_order w)" for j
  proof -
    from that order have "j < length csv_files" by auto
    then show ?thesis using reads [of "csv_files ! j"] by (simp add: process_file_fast_def)
  qed
  have "gather_results (map (process_file_fast w) csv_files) (completion_order w) []
        = Inr (map (\<lambda>j. body (csv_files ! j)) (completion_order w))"
    using gather_results_all_ok [of "completion_order w" "map (process_file_fast w) csv_files"
        "\<lambda>j. body (csv_files ! j)" "[]"] fut by simp
  with listing workers show ?thesis
    by (simp add: combine_and_upload_streaming_chunked_def upload_ok [OF upload]
        streaming_upload_args_def)
qed

lemma high_ram_run_sorted_concat:
  assumes "list_csv_files w cfg = Inr csv_files"
      and "csv_files \<noteq> []"
      and "size_gate w cfg csv_files = Proceed"
      and "0 < MAX_WORKERS cfg"
      and "\<And>p. p \<in> set csv_files \<Longrightarrow> \<exists>s. size_at_download w p = Inr s"
      and "\<And>p. p \<in> set csv_files \<Longrightarrow> read_all w p = Inr (body p)"
      and "set (completion_order w) = {..<length csv_files}"
      and "upload_fault w = None"
  shows "combine_and_upload_high_ram w cfg dest =
           (Inr Uploaded,
            dest((DEST_BUCKET cfg, DEST_FILENAME cfg) \<mapsto>
              \<lparr>blob_content_type = ''application/x-bzip2'',
               blob_body = bz2_compress w 9 (concat (map body csv_files))\<rparr>))"
  using assms(1-3) high_ram_phases_sorted_concat [OF assms(4-8)]
  by (simp add: combine_and_upload_high_ram_def)

lemmas demo_defs = demo_world_def demo_config_def demo_body_def

lemma demo_listing_of_find:
  "find w = find demo_world \<Longrightarrow>
   list_csv_files w demo_config = Inr [''src/a.csv'', ''src/b.csv'', ''src/c.csv'']"
  by (simp add: list_csv_files_def demo_world_def demo_config_def endswith_def)

subsection \<open>Output order\<close>

text \<open>
  C1: for objects with distinct paths the uncompressed output is the concatenation of the
  bodies in the order of the sorted paths, whatever the completion order, in both entry
  points. The high-RAM entry point does so (\<open>high_ram_run_sorted_concat\<close>). The streaming
  entry point does not: in the three-object scenario with \<^verbatim>\<open>c.csv\<close> completing first, the
  uploaded stream holds the body of \<^verbatim>\<open>c.csv\<close>, then \<^verbatim>\<open>a.csv\<close>, then \<^verbatim>\<open>b.csv\<close>.
\<close>

theorem streaming_output_in_completion_order:
  "completion_order demo_world = [2, 0, 1] \<and>
   combine_and_upload_streaming_chunked demo_world demo_config Map.empty =
     (Inr Uploaded,
      Map.empty((''dst'', ''combined_output.csv.bz2'') \<mapsto>
        \<lparr>blob_content_type = ''application/x-bzip2'',
         blob_body = ''BZh95,6\<newline>1,2\<newline>3,4\<newline>''\<rparr>))"
  unfolding combine_and_upload_streaming_chunked_def demo_listing
  by (simp add: process_file_fast_def upload_from_file_def streaming_upload_args_def
      stored_9 demo_defs)

text \<open>
  C2: on the same input the two entry points upload the same bytes. With \<^verbatim>\<open>b.csv\<close>
  completing before \<^verbatim>\<open>a.csv\<close> the high-RAM entry point uploads the bodies in sorted
  order and the streaming entry point uploads them in completion order.
\<close>

theorem variants_differ_on_completion_order:
  "combine_and_upload_high_ram (demo_world\<lparr>completion_order := [1, 0, 2]\<rparr>) demo_config Map.empty =
     (Inr Uploaded,
      Map.empty((''dst'', ''combined_output.csv.bz2'') \<mapsto>
        \<lparr>blob_content_type = ''application/x-bzip2'',
         blob_body = ''BZh91,2\<newline>3,4\<newline>5,6\<newline>''\<rparr>))
   \<and> combine_and_upload_streaming_chunked (demo_world\<lparr>completion_order := [1, 0, 2]\<rparr>) demo_config Map.empty =
     (Inr Uploaded,
      Map.empty((''dst'', ''combined_output.csv.bz2'') \<mapsto>
        \<lparr>blob_content_type = ''application/x-bzip2'',
         blob_body = ''BZh93,4\<newline>1,2\<newline>5,6\<newline>''\<rparr>))"
proof -
  let ?w = "demo_world\<lparr>completion_order := [1, 0, 2]\<rparr>"
  have listing: "list_csv_files ?w demo_config = Inr [''src/a.csv'', ''src/b.csv'', ''src/c.csv'']"
    by (rule demo_listing_of_find) simp
  have gate: "size_gate ?w demo_config [''src/a.csv'', ''src/b.csv'', ''src/c.csv''] = Proceed"
    by (simp add: size_gate_def estimate_total_gb_def sample_files_def demo_defs)
  have phases: "download_compress_upload_high_ram ?w demo_config
       [''src/a.csv'', ''src/b.csv'', ''src/c.csv''] Map.empty =
     (Inr Uploaded,
      Map.empty((''dst'', ''combined_output.csv.bz2'') \<mapsto>
        \<lparr>blob_content_type = ''application/x-bzip2'',
         blob_body = ''BZh91,2\<newline>3,4\<newline>5,6\<newline>''\<rparr>))"
    by (simp add: download_compress_upload_high_ram_def
      compress_and_upload_high_ram_def submit_downloads_def download_entire_file_def
      upload_from_file_def high_ram_upload_args_def stored_9 demo_defs numeral_3_eq_3)
  have high: "combine_and_upload_high_ram ?w demo_config Map.empty =
     (Inr Uploaded,
      Map.empty((''dst'', ''combined_output.csv.bz2'') \<mapsto>
        \<lparr>blob_content_type = ''application/x-bzip2'',
         blob_body = ''BZh91,2\<newline>3,4\<newline>5,6\<newline>''\<rparr>))"
    using listing gate phases by (simp add: combine_and_upload_high_ram_def)
  have streaming: "combine_and_upload_streaming_chunked ?w demo_config Map.empty =
     (Inr Uploaded,
      Map.empty((''dst'', ''combined_output.csv.bz2'') \<mapsto>
        \<lparr>blob_content_type = ''application/x-bzip2'',
         blob_body = ''BZh93,4\<newline>1,2\<newline>5,6\<newline>''\<rparr>))"
    unfolding combine_and_upload_streaming_chunked_def listing
    by (simp add: process_file_fast_def upload_from_file_def streaming_upload_args_def
        stored_9 demo_defs)
  from high streaming show ?thesis by (rule conjI)
qed

text \<open>
  C7: a successful run writes one object at the destination, of content type
  \<^verbatim>\<open>application/x-bzip2\<close>, whose body is the level-9 compression of the bodies in sorted
  path order. With the downloads completing in reverse order the streaming entry point
  ends successfully, and the body it uploads is the compression of the reversed
  concatenation, which is not the compression of the sorted one.
\<close>

theorem streaming_uploads_unsorted_body:
  "combine_and_upload_streaming_chunked (demo_world\<lparr>completion_order := [2, 1, 0]\<rparr>) demo_config Map.empty =
     (Inr Uploaded,
      Map.empty((''dst'', ''combined_output.csv.bz2'') \<mapsto>
        \<lparr>blob_content_type = ''application/x-bzip2'',
         blob_body = stored 9 (''5,6\<newline>'' @ ''3,4\<newline>'' @ ''1,2\<newline>'')\<rparr>))
   \<and> stored 9 (''5,6\<newline>'' @ ''3,4\<newline>'' @ ''1,2\<newline>'')
       \<noteq> stored 9 (''1,2\<newline>'' @ ''3,4\<newline>'' @ ''5,6\<newline>'')"
proof -
  let ?w = "demo_world\<lparr>completion_order := [2, 1, 0]\<rparr>"
  have listing: "list_csv_files ?w demo_config = Inr [''src/a.csv'', ''src/b.csv'', ''src/c.csv'']"
    by (rule demo_listing_of_find) simp
  show ?thesis
    unfolding combine_and_upload_streaming_chunked_def listing
    by (simp add: process_file_fast_def upload_from_file_def streaming_upload_args_def
        stored_9 demo_defs)
qed

subsection \<open>An empty listing\<close>

text \<open>
  C5: a listing without CSV files is a clean no-op that writes no destination object, in
  both entry points. The high-RAM entry point returns at once; the streaming entry point
  has no such check, compresses nothing and uploads the resulting empty stream.
\<close>

theorem streaming_uploads_on_empty_listing:
  "list_csv_files empty_world demo_config = Inr []
   \<and> combine_and_upload_high_ram empty_world demo_config Map.empty = (Inr NoCsvFiles, Map.empty)
   \<and> combine_and_upload_streaming_chunked empty_world demo_config Map.empty =
     (Inr Uploaded,
      Map.empty((''dst'', ''combined_output.csv.bz2'') \<mapsto>
        \<lparr>blob_content_type = ''application/x-bzip2'', blob_body = ''BZh9''\<rparr>))"
proof -
  have listing: "list_csv_files empty_world demo_config = Inr []"
    by (simp add: list_csv_files_def endswith_def empty_world_def demo_defs)
  show ?thesis
    unfolding combine_and_upload_streaming_chunked_def combine_and_upload_high_ram_def listing
    by (simp add: empty_world_def upload_from_file_def streaming_upload_args_def stored_9
        demo_defs)
qed

subsection \<open>A payload missing at compression time\<close>

text \<open>
  C3, as stated: a run in which the payload of an expected index is absent when the
  compressor is finalized raises a fatal integrity error instead of producing truncated
  output. Entered with two expected indices and the payload of index 1 absent, phases 2
  and 3 of the high-RAM entry point raise nothing: the run ends after the upload, and
  the uploaded stream holds the payload of index 0 alone.
\<close>

theorem missing_index_uploads_truncated:
  "(Map.empty(0 \<mapsto> ''1,2\<newline>'')) (1::nat) = None \<and>
   compress_and_upload_high_ram demo_world demo_config 2 (Map.empty(0 \<mapsto> ''1,2\<newline>'')) Map.empty =
     (Inr Uploaded,
      Map.empty((''dst'', ''combined_output.csv.bz2'') \<mapsto>
        \<lparr>blob_content_type = ''application/x-bzip2'', blob_body = ''BZh91,2\<newline>''\<rparr>))"
  by (simp add: compress_and_upload_high_ram_def upload_from_file_def demo_world_def
      demo_config_def high_ram_upload_args_def stored_9 numeral_2_eq_2)

text \<open>
  C3, amended: in the high-RAM entry point an index whose payload is absent at compression
  time is skipped with a warning; the stream written is the concatenation of the payloads
  that are present, by increasing index, and the run goes on to upload it. No error is
  raised for the gap.
\<close>

theorem missing_index_is_skipped:
  assumes "upload_fault w = None"
  shows "compress_and_upload_high_ram w cfg n file_data_dict dest =
           (Inr Uploaded,
            dest((DEST_BUCKET cfg, DEST_FILENAME cfg) \<mapsto>
              \<lparr>blob_content_type = ''application/x-bzip2'',
               blob_body = bz2_compress w 9
                 (concat (map (\<lambda>i. case file_data_dict i of None \<Rightarrow> [] | Some b \<Rightarrow> b) [0..<n]))\<rparr>))
         \<and> snd (write_in_order [0..<n] file_data_dict [] []) =
             filter (\<lambda>i. file_data_dict i = None) [0..<n]"
  using assms
  by (simp add: compress_and_upload_high_ram_def write_in_order_eq upload_ok
      high_ram_upload_args_def)

theorem missing_index_is_skipped_witness:
  "upload_fault demo_world = None \<and>
   compress_and_upload_high_ram demo_world demo_config 3
       (Map.empty(0 \<mapsto> ''1,2\<newline>'', 2 \<mapsto> ''5,6\<newline>'')) Map.empty =
     (Inr Uploaded,
      Map.empty((''dst'', ''combined_output.csv.bz2'') \<mapsto>
        \<lparr>blob_content_type = ''application/x-bzip2'', blob_body = ''BZh91,2\<newline>5,6\<newline>''\<rparr>))
   \<and> snd (write_in_order [0..<3] (Map.empty(0 \<mapsto> ''1,2\<newline>'', 2 \<mapsto> ''5,6\<newline>'')) [] []) = [1]"
proof -
  have h: "upload_fault demo_world = None" by (simp add: demo_world_def)
  have three: "[0..<3] = [0, 1, 2]" by (simp add: numeral_3_eq_3)
  have bz: "bz2_compress demo_world = stored" by (simp add: demo_world_def)
  show ?thesis
    using missing_index_is_skipped [OF h, of demo_config 3
        "Map.empty(0 \<mapsto> ''1,2\<newline>'', 2 \<mapsto> ''5,6\<newline>'')" Map.empty]
    by (simp add: h three bz stored_9 demo_config_def)
qed

text \<open>
  A download phase that ends without an exception has stored a payload for every index,
  so a whole run never reaches the writing loop with an index missing.
\<close>

lemma download_phase_delivers_every_index:
  assumes collected:
      "collect_results (submit_downloads w csv_files) (completion_order w) Map.empty
       = Inr file_data_dict"
    and order: "set (completion_order w) = {..<length csv_files}"
  shows "dom file_data_dict = {..<length csv_files}"
proof -
  have "dom file_data_dict = dom (Map.empty :: nat \<rightharpoonup> bytes) \<union> set (completion_order w)"
  proof (rule collect_results_dom [OF collected])
    fix j i b
    assume "j \<in> set (completion_order w)"
      and result: "submit_downloads w csv_files ! j = Inr (i, b)"
    with order have "j < length csv_files" by simp
    with result show "i = j"
      by (simp add: nth_submit_downloads download_entire_file_def split: sum.splits)
  qed
  with order show ?thesis by simp
qed

subsection \<open>A failed retrieval\<close>

lemma faulty_listing:
  "list_csv_files faulty_world demo_config = Inr [''src/a.csv'', ''src/b.csv'', ''src/c.csv'']"
  by (simp add: list_csv_files_def faulty_world_def demo_world_def demo_config_def endswith_def)

lemma high_ram_phases_abort:
  assumes "set (completion_order w) = {..<length csv_files}"
      and "j < length csv_files"
      and "download_entire_file w (csv_files ! j) j (length csv_files) = Inl e0"
  shows "\<exists>e. download_compress_upload_high_ram w cfg csv_files dest = (Inl e, dest)"
proof (cases "MAX_WORKERS cfg \<le> 0")
  case True
  then show ?thesis by (simp add: download_compress_upload_high_ram_def)
next
  case False
  have "j \<in> set (completion_order w)" using assms(1,2) by simp
  moreover have "submit_downloads w csv_files ! j = Inl e0"
    using assms(2,3) by (simp add: nth_submit_downloads)
  ultimately obtain e where
    "collect_results (submit_downloads w csv_files) (completion_order w) Map.empty = Inl e"
    using collect_results_failure by blast
  with False show ?thesis by (simp add: download_compress_upload_high_ram_def)
qed

lemma streaming_abort:
  assumes "list_csv_files w cfg = Inr csv_files"
      and "set (completion_order w) = {..<length csv_files}"
      and "j < length csv_files"
      and "process_file_fast w (csv_files ! j) = Inl e0"
  shows "\<exists>e. combine_and_upload_streaming_chunked w cfg dest = (Inl e, dest)"
proof (cases "MAX_WORKERS cfg \<le> 0")
  case True
  then show ?thesis using assms(1) by (simp add: combine_and_upload_streaming_chunked_def)
next
  case False
  have "j \<in> set (completion_order w)" using assms(2,3) by simp
  moreover have "map (process_file_fast w) csv_files ! j = Inl e0"
    using assms(3,4) by simp
  ultimately obtain e where
    "gather_results (map (process_file_fast w) csv_files) (completion_order w) [] = Inl e"
    using gather_results_failure by blast
  with False assms(1) show ?thesis by (simp add: combine_and_upload_streaming_chunked_def)
qed

text \<open>
  C4: a run in which the retrieval of one object fails aborts in a failed state and
  writes no destination object. For the listing \<open>csv_files\<close> and a completion order that
  yields every future, a failing download of the object at position \<open>j\<close> leaves the
  destination store as it was; the high-RAM run, once past the size prompt, and the
  streaming run both end with an exception.
\<close>

theorem retrieval_failure_aborts:
  assumes "list_csv_files w cfg = Inr csv_files"
      and "set (completion_order w) = {..<length csv_files}"
      and "j < length csv_files"
  shows "((\<exists>e. download_entire_file w (csv_files ! j) j (length csv_files) = Inl e) \<longrightarrow>
            snd (combine_and_upload_high_ram w cfg dest) = dest
            \<and> (size_gate w cfg csv_files = Proceed \<longrightarrow>
                 (\<exists>e. combine_and_upload_high_ram w cfg dest = (Inl e, dest))))
         \<and> ((\<exists>e. process_file_fast w (csv_files ! j) = Inl e) \<longrightarrow>
            (\<exists>e. combine_and_upload_streaming_chunked w cfg dest = (Inl e, dest)))"
proof (intro conjI impI)
  assume "\<exists>e. download_entire_file w (csv_files ! j) j (length csv_files) = Inl e"
  then obtain e where
    "download_compress_upload_high_ram w cfg csv_files dest = (Inl e, dest)"
    using high_ram_phases_abort [OF assms(2,3)] by blast
  moreover have "csv_files \<noteq> []" using assms(3) by auto
  ultimately show "snd (combine_and_upload_high_ram w cfg dest) = dest"
    and "size_gate w cfg csv_files = Proceed \<Longrightarrow>
         \<exists>e. combine_and_upload_high_ram w cfg dest = (Inl e, dest)"
    using assms(1) by (simp_all add: combine_and_upload_high_ram_def split: gate.splits)
next
  assume "\<exists>e. process_file_fast w (csv_files ! j) = Inl e"
  then show "\<exists>e. combine_and_upload_streaming_chunked w cfg dest = (Inl e, dest)"
    using streaming_abort [OF assms] by blast
qed

theorem retrieval_failure_aborts_witness:
  "list_csv_files faulty_world demo_config = Inr [''src/a.csv'', ''src/b.csv'', ''src/c.csv'']
   \<and> set (completion_order faulty_world) = {..<length [''src/a.csv'', ''src/b.csv'', ''src/c.csv'']}
   \<and> (\<exists>e. download_entire_file faulty_world ''src/b.csv'' 1 3 = Inl e)
   \<and> (\<exists>e. process_file_fast faulty_world ''src/b.csv'' = Inl e)
   \<and> size_gate faulty_world demo_config [''src/a.csv'', ''src/b.csv'', ''src/c.csv''] = Proceed
   \<and> snd (combine_and_upload_high_ram faulty_world demo_config Map.empty) = Map.empty
   \<and> (\<exists>e. combine_and_upload_high_ram faulty_world demo_config Map.empty = (Inl e, Map.empty))
   \<and> (\<exists>e. combine_and_upload_streaming_chunked faulty_world demo_config Map.empty = (Inl e, Map.empty))"
proof -
  let ?csv = "[''src/a.csv'', ''src/b.csv'', ''src/c.csv'']"
  have order: "set (completion_order faulty_world) = {..<length ?csv}"
    by (auto simp add: faulty_world_def demo_world_def)
  have j: "(1::nat) < length ?csv" by simp
  have dl: "\<exists>e. download_entire_file faulty_world (?csv ! 1) 1 (length ?csv) = Inl e"
    by (simp add: download_entire_file_def faulty_world_def demo_world_def)
  have pf: "\<exists>e. process_file_fast faulty_world (?csv ! 1) = Inl e"
    by (simp add: process_file_fast_def faulty_world_def demo_world_def)
  have gate: "size_gate faulty_world demo_config ?csv = Proceed"
    by (simp add: size_gate_def estimate_total_gb_def sample_files_def faulty_world_def demo_world_def
        demo_config_def)
  have dl3: "\<exists>e. download_entire_file faulty_world ''src/b.csv'' 1 3 = Inl e"
    by (simp add: download_entire_file_def faulty_world_def demo_world_def)
  show ?thesis
    using retrieval_failure_aborts [OF faulty_listing order j, of Map.empty] dl pf gate dl3
    by (simp add: faulty_listing order)
qed

subsection \<open>The size estimate\<close>

lemma sum_sizes_all_ok:
  "(\<And>p. p \<in> set fs \<Longrightarrow> sz p = Inr (s p)) \<Longrightarrow> sum_sizes sz fs = Inr (sum_list (map s fs))"
  by (induction fs) simp_all

lemma sum_sizes_failure:
  "p \<in> set fs \<Longrightarrow> sz p = Inl e0 \<Longrightarrow> \<exists>e. sum_sizes sz fs = Inl e"
  by (induction fs) (auto split: sum.splits)

lemma length_sample_files: "length (sample_files csv_files) = min 10 (length csv_files)"
  by (simp add: sample_files_def)

text \<open>
  C6: for a non-empty listing of \<open>N\<close> objects the estimate samples exactly the first
  \<open>min 10 N\<close> objects of the sorted listing, projects the total as the average sampled
  size times \<open>N\<close> and compares the projection, in GiB, with the memory limit; when a size
  lookup of the sample raises, the estimate is skipped and the run goes on with the
  downloads. Only the sizes of the sampled objects are assumed to be known; each float
  operation is rounded by \<open>rnd\<close>.
\<close>

theorem size_estimate_contract:
  assumes "csv_files \<noteq> []"
  shows "sample_files csv_files = take (min 10 (length csv_files)) csv_files
     \<and> ((\<forall>p \<in> set (sample_files csv_files). size_at_estimate w p = Inr (sz p)) \<longrightarrow>
          estimate_total_gb w csv_files =
            Inr (rnd w (rnd w (rnd w (real (sum_list (map sz (sample_files csv_files)))
                                       / real (min 10 (length csv_files)))
                                * real (length csv_files)) / 1024 ^ 3))
          \<and> size_gate w cfg csv_files =
              (if rnd w (rnd w (rnd w (real (sum_list (map sz (sample_files csv_files)))
                                       / real (min 10 (length csv_files)))
                                * real (length csv_files)) / 1024 ^ 3)
                  > real_of_int (MEMORY_LIMIT_GB cfg)
               then confirm w else Proceed))
     \<and> ((\<exists>p e. p \<in> set (sample_files csv_files) \<and> size_at_estimate w p = Inl e) \<longrightarrow>
          size_gate w cfg csv_files = Proceed
          \<and> (list_csv_files w cfg = Inr csv_files \<longrightarrow>
               combine_and_upload_high_ram w cfg dest =
                 download_compress_upload_high_ram w cfg csv_files dest))"
proof (intro conjI impI)
  show "sample_files csv_files = take (min 10 (length csv_files)) csv_files"
    by (simp add: sample_files_def)
next
  assume ok: "\<forall>p \<in> set (sample_files csv_files). size_at_estimate w p = Inr (sz p)"
  then have sum: "sum_sizes (size_at_estimate w) (sample_files csv_files)
                  = Inr (sum_list (map sz (sample_files csv_files)))"
    by (intro sum_sizes_all_ok) simp
  from assms have nonempty: "length (sample_files csv_files) \<noteq> 0"
    by (simp add: length_sample_files)
  show est: "estimate_total_gb w csv_files =
            Inr (rnd w (rnd w (rnd w (real (sum_list (map sz (sample_files csv_files)))
                                       / real (min 10 (length csv_files)))
                                * real (length csv_files)) / 1024 ^ 3))"
    using nonempty unfolding estimate_total_gb_def sum
    by (simp add: length_sample_files)
  show "size_gate w cfg csv_files =
              (if rnd w (rnd w (rnd w (real (sum_list (map sz (sample_files csv_files)))
                                       / real (min 10 (length csv_files)))
                                * real (length csv_files)) / 1024 ^ 3)
                  > real_of_int (MEMORY_LIMIT_GB cfg)
               then confirm w else Proceed)"
    unfolding size_gate_def est by simp
next
  assume "\<exists>p e. p \<in> set (sample_files csv_files) \<and> size_at_estimate w p = Inl e"
  then obtain e where "sum_sizes (size_at_estimate w) (sample_files csv_files) = Inl e"
    using sum_sizes_failure by blast
  then show gate: "size_gate w cfg csv_files = Proceed"
    by (simp add: size_gate_def estimate_total_gb_def)
  assume "list_csv_files w cfg = Inr csv_files"
  with gate assms show "combine_and_upload_high_ram w cfg dest =
                 download_compress_upload_high_ram w cfg csv_files dest"
    by (simp add: combine_and_upload_high_ram_def)
qed

theorem size_estimate_contract_witness:
  "twelve_files \<noteq> []
   \<and> sample_files twelve_files =
       [''f00'', ''f01'', ''f02'', ''f03'', ''f04'', ''f05'', ''f06'', ''f07'', ''f08'', ''f09'']
   \<and> list_all (\<lambda>p. size_at_estimate sampled_world p = Inr (1024 ^ 3)) (sample_files twelve_files)
   \<and> size_at_estimate sampled_world ''f11'' = Inl (Exn ''forbidden'')
   \<and> estimate_total_gb sampled_world twelve_files = Inr 12
   \<and> size_gate sampled_world demo_config twelve_files = Proceed
   \<and> size_gate sampled_world (demo_config\<lparr>MEMORY_LIMIT_GB := 11\<rparr>) twelve_files = Return
   \<and> (\<exists>p e. p \<in> set (sample_files [''src/a.csv'', ''src/b.csv'', ''src/c.csv''])
            \<and> size_at_estimate unsized_world p = Inl e)
   \<and> size_gate unsized_world demo_config [''src/a.csv'', ''src/b.csv'', ''src/c.csv''] = Proceed
   \<and> combine_and_upload_high_ram unsized_world demo_config Map.empty =
       (Inr Uploaded,
        Map.empty((''dst'', ''combined_output.csv.bz2'') \<mapsto>
          \<lparr>blob_content_type = ''application/x-bzip2'',
           blob_body = ''BZh91,2\<newline>3,4\<newline>5,6\<newline>''\<rparr>))"
proof -
  let ?csv = "[''src/a.csv'', ''src/b.csv'', ''src/c.csv'']"
  have ne: "twelve_files \<noteq> []" by (simp add: twelve_files_def)
  have sample: "sample_files twelve_files =
       [''f00'', ''f01'', ''f02'', ''f03'', ''f04'', ''f05'', ''f06'', ''f07'', ''f08'', ''f09'']"
    by (simp add: sample_files_def twelve_files_def)
  have len: "length twelve_files = 12" by (simp add: twelve_files_def)
  have sized: "\<forall>p \<in> set (sample_files twelve_files). size_at_estimate sampled_world p = Inr (1024 ^ 3)"
    unfolding sample by (simp add: sampled_world_def demo_world_def)
  have sized_all:
    "list_all (\<lambda>p. size_at_estimate sampled_world p = Inr (1024 ^ 3)) (sample_files twelve_files)"
    using sized by (simp only: list_all_iff)
  have last: "size_at_estimate sampled_world ''f11'' = Inl (Exn ''forbidden'')"
    by (simp add: sampled_world_def demo_world_def)
  have id: "rnd sampled_world = (\<lambda>x. x)" by (simp add: sampled_world_def demo_world_def)
  have prompt: "confirm sampled_world = Return"
    by (simp add: confirm_def sampled_world_def demo_world_def strip_def lower_def
        py_isspace_def py_lower_char_def)
  note first = size_estimate_contract [OF ne, of sampled_world "\<lambda>p. 1024 ^ 3"]
  have est: "estimate_total_gb sampled_world twelve_files = Inr 12"
    using first sized by (simp add: sample len id)
  have gate80: "size_gate sampled_world demo_config twelve_files = Proceed"
    using first [of demo_config] sized by (simp add: sample len id demo_config_def)
  have gate11: "size_gate sampled_world (demo_config\<lparr>MEMORY_LIMIT_GB := 11\<rparr>) twelve_files = Return"
    using first [of "demo_config\<lparr>MEMORY_LIMIT_GB := 11\<rparr>"] sized
    by (simp add: sample len id prompt)
  have ne3: "?csv \<noteq> []" by simp
  have failing: "\<exists>p e. p \<in> set (sample_files ?csv) \<and> size_at_estimate unsized_world p = Inl e"
    by (auto simp add: sample_files_def unsized_world_def demo_world_def)
  have listing: "list_csv_files unsized_world demo_config = Inr ?csv"
    by (rule demo_listing_of_find) (simp add: unsized_world_def)
  have phases: "download_compress_upload_high_ram unsized_world demo_config ?csv Map.empty =
       (Inr Uploaded,
        Map.empty((''dst'', ''combined_output.csv.bz2'') \<mapsto>
          \<lparr>blob_content_type = ''application/x-bzip2'',
           blob_body = ''BZh91,2\<newline>3,4\<newline>5,6\<newline>''\<rparr>))"
    by (simp add: download_compress_upload_high_ram_def unsized_world_def
      compress_and_upload_high_ram_def submit_downloads_def download_entire_file_def
      upload_from_file_def high_ram_upload_args_def stored_9 demo_defs numeral_3_eq_3)
  note second = size_estimate_contract [OF ne3, of unsized_world "\<lambda>p. 0" demo_config Map.empty]
  have gate_un: "size_gate unsized_world demo_config ?csv = Proceed"
    using second failing by blast
  have run: "combine_and_upload_high_ram unsized_world demo_config Map.empty =
       download_compress_upload_high_ram unsized_world demo_config ?csv Map.empty"
    using second failing listing by blast
  show ?thesis
    using ne sample sized_all last est gate80 gate11 failing gate_un run phases by simp
qed

subsection \<open>The confirmation prompt\<close>

text \<open>
  C10: in the high-RAM entry point, when the projection exceeds the limit and the prompt
  returns a line, the run goes on to the downloads if the line, stripped and lowercased,
  is \<^verbatim>\<open>y\<close>, and otherwise returns at once, with the destination store as it was.
\<close>

theorem confirmation_gates_the_run:
  assumes "list_csv_files w cfg = Inr csv_files"
      and "csv_files \<noteq> []"
      and "estimate_total_gb w csv_files = Inr estimated_total_gb"
      and "estimated_total_gb > real_of_int (MEMORY_LIMIT_GB cfg)"
      and "stdin_line w = Inr response"
  shows "combine_and_upload_high_ram w cfg dest =
           (if lower (strip response) = ''y''
            then download_compress_upload_high_ram w cfg csv_files dest
            else (Inr Declined, dest))"
  using assms by (simp add: combine_and_upload_high_ram_def size_gate_def confirm_def)

text \<open>The only responses that continue the run are \<^verbatim>\<open>y\<close> and \<^verbatim>\<open>Y\<close> between white space.\<close>

lemma lower_is_y: "lower s = ''y'' \<longleftrightarrow> s = ''y'' \<or> s = ''Y''"
proof -
  have one: "py_lower_char c = CHR ''y'' \<longleftrightarrow> c = CHR ''y'' \<or> c = CHR ''Y''" for c
  proof (cases c)
    case (Char b0 b1 b2 b3 b4 b5 b6 b7)
    then show ?thesis
      by (cases b0; cases b1; cases b2; cases b3; cases b4; cases b5; cases b6; cases b7)
         (simp_all add: py_lower_char_def char_of_eq_iff take_bit_eq_mod)
  qed
  show ?thesis
    by (cases s) (auto simp add: lower_def one)
qed

lemma big_estimate:
  "estimate_total_gb (big_world response) [''src/a.csv'', ''src/b.csv'', ''src/c.csv''] = Inr 120"
  by (simp add: estimate_total_gb_def sample_files_def big_world_def demo_world_def)

theorem confirmation_gates_the_run_witness:
  "list_csv_files (big_world ''n'') demo_config = Inr [''src/a.csv'', ''src/b.csv'', ''src/c.csv'']
   \<and> estimate_total_gb (big_world ''n'') [''src/a.csv'', ''src/b.csv'', ''src/c.csv''] = Inr 120
   \<and> (120::real) > real_of_int (MEMORY_LIMIT_GB demo_config)
   \<and> stdin_line (big_world ''n'') = Inr ''n''
   \<and> combine_and_upload_high_ram (big_world ''n'') demo_config Map.empty = (Inr Declined, Map.empty)
   \<and> combine_and_upload_high_ram (big_world ''yes'') demo_config Map.empty = (Inr Declined, Map.empty)
   \<and> combine_and_upload_high_ram (big_world '' Y  '') demo_config Map.empty =
       (Inr Uploaded,
        Map.empty((''dst'', ''combined_output.csv.bz2'') \<mapsto>
          \<lparr>blob_content_type = ''application/x-bzip2'',
           blob_body = ''BZh91,2\<newline>3,4\<newline>5,6\<newline>''\<rparr>))"
proof -
  let ?csv = "[''src/a.csv'', ''src/b.csv'', ''src/c.csv'']"
  have listing: "list_csv_files (big_world r) demo_config = Inr ?csv" for r
    by (rule demo_listing_of_find) (simp add: big_world_def)
  have ne: "?csv \<noteq> []" by simp
  have over: "(120::real) > real_of_int (MEMORY_LIMIT_GB demo_config)"
    by (simp add: demo_config_def)
  have line: "stdin_line (big_world r) = Inr r" for r by (simp add: big_world_def)
  note gated = confirmation_gates_the_run [OF listing ne big_estimate over line, of _ Map.empty]
  have no: "lower (strip ''n'') \<noteq> ''y''" "lower (strip ''yes'') \<noteq> ''y''"
    by (simp_all add: strip_def lower_def py_isspace_def py_lower_char_def)
  have yes: "lower (strip '' Y  '') = ''y''"
    by (simp add: strip_def lower_def py_isspace_def py_lower_char_def char_of_eq_iff
        take_bit_eq_mod)
  have phases: "download_compress_upload_high_ram (big_world '' Y  '') demo_config ?csv Map.empty =
       (Inr Uploaded,
        Map.empty((''dst'', ''combined_output.csv.bz2'') \<mapsto>
          \<lparr>blob_content_type = ''application/x-bzip2'',
           blob_body = ''BZh91,2\<newline>3,4\<newline>5,6\<newline>''\<rparr>))"
    by (simp add: download_compress_upload_high_ram_def big_world_def
      compress_and_upload_high_ram_def submit_downloads_def download_entire_file_def
      upload_from_file_def high_ram_upload_args_def stored_9 demo_defs numeral_3_eq_3)
  show ?thesis
    using gated [of "''n''"] gated [of "''yes''"] gated [of "'' Y  ''"] no yes phases
      listing [of "''n''"] big_estimate [of "''n''"] over line [of "''n''"]
    by simp
qed

subsection \<open>Timeouts of the network operations\<close>



end
